theory Spec2Isabelle
  imports Complex_Main "HOL-Library.AList" "HOL-Library.Char_ord" "HOL-Library.List_Lexorder"
    "HOL-Library.Sublist"
begin

section \<open>Paths and the file system\<close>

text \<open>
  A path is the sequence of its segments, as \<^verbatim>\<open>pathlib\<close> keeps it in \<^verbatim>\<open>parts\<close>; an absolute
  path is counted from the root of the file system. Paths compare the way \<^verbatim>\<open>PurePath\<close>
  does on POSIX: lexicographically by segment, each segment by character code, a proper
  prefix first. This is the order \<^verbatim>\<open>sorted\<close> uses at lines 32 and 45 of the script.
\<close>

type_synonym path = "string list"

type_synonym bytes = "char list"

text \<open>
  The file system is an explicit store: the regular files with their contents (an
  association list read with \<open>map_of\<close>) and the directories. Every prefix of a stored
  path exists as well, so a directory that holds something need not be listed; empty
  directories are.
\<close>

record filesystem =
  files :: "(path \<times> bytes) list"
  dirs :: "path list"

datatype error = OSError | ValueError | SystemExit string

definition entries :: "filesystem \<Rightarrow> path list" where
  "entries fs = remdups ([] # concat (map prefixes (map fst (files fs) @ dirs fs)))"

definition exists_path :: "filesystem \<Rightarrow> path \<Rightarrow> bool" where
  "exists_path fs p = (p \<in> set (entries fs))"

definition is_file :: "filesystem \<Rightarrow> path \<Rightarrow> bool" where
  "is_file fs p = (map_of (files fs) p \<noteq> None)"

text \<open>\<^verbatim>\<open>base.rglob("*")\<close>: everything strictly below \<open>base\<close>, in the order the store yields it.\<close>

definition rglob :: "filesystem \<Rightarrow> path \<Rightarrow> path list" where
  "rglob fs base = filter (strict_prefix base) (entries fs)"

text \<open>\<^verbatim>\<open>p.relative_to(base)\<close> raises \<^verbatim>\<open>ValueError\<close> unless \<open>base\<close> is a prefix of \<open>p\<close>.\<close>

definition relative_to :: "path \<Rightarrow> path \<Rightarrow> error + path" where
  "relative_to p base = (if prefix base p then Inr (drop (length base) p) else Inl ValueError)"

text \<open>\<^verbatim>\<open>sep.join(parts)\<close>.\<close>

fun join :: "string \<Rightarrow> string list \<Rightarrow> string" where
  "join sep [] = []"
| "join sep [x] = x"
| "join sep (x # y # ys) = x @ sep @ join sep (y # ys)"

text \<open>\<^verbatim>\<open>str\<close> of a relative path (the empty one prints as a dot) and of an absolute one.\<close>

definition str_rel :: "path \<Rightarrow> string" where
  "str_rel p = (if p = [] then ''.'' else join ''/'' p)"

definition str_abs :: "path \<Rightarrow> string" where
  "str_abs p = ''/'' @ join ''/'' p"

section \<open>Hashing and gathering\<close>

text \<open>
  \<^verbatim>\<open>hash_file\<close> (lines 21 to 27) feeds the file to SHA-256 in chunks of 65536 bytes and
  returns the hexadecimal digest, which is the digest of the whole content. The digest
  function itself belongs to \<^verbatim>\<open>hashlib\<close> and is a parameter \<open>sha\<close> of the model. Opening a
  path that is not a regular file raises \<^verbatim>\<open>OSError\<close>.
\<close>

definition hash_file :: "(bytes \<Rightarrow> string) \<Rightarrow> filesystem \<Rightarrow> path \<Rightarrow> error + string" where
  "hash_file sha fs p = (case map_of (files fs) p of None \<Rightarrow> Inl OSError | Some c \<Rightarrow> Inr (sha c))"

definition gather_files :: "filesystem \<Rightarrow> path \<Rightarrow> path list" where
  "gather_files fs base = sort (filter (is_file fs) (rglob fs base))"

section \<open>Python values used by the script\<close>

subsection \<open>Floats\<close>

text \<open>
  A Python float is an IEEE-754 double; the model keeps its exact value as a rational.
  \<open>fl\<close> rounds a rational to the nearest double, ties to the even significand, with
  gradual underflow at the bottom of the range; the script never leaves the interval
  from 0 to 100, so overflow does not arise. True division of two integers and the
  product of two floats are both correctly rounded. The script divides only behind the
  test that the total is not zero (lines 65 and 96), and so does the model: \<open>int_truediv\<close>
  is never applied to a zero divisor, where Python would raise.
\<close>

type_synonym pyfloat = rat

definition round_half_even :: "rat \<Rightarrow> int" where
  "round_half_even x =
     (let f = \<lfloor>x\<rfloor>; d = x - of_int f
      in if d < 1 / 2 then f else if 1 / 2 < d then f + 1 else if even f then f else f + 1)"

definition pow2 :: "int \<Rightarrow> rat" where
  "pow2 e = (if 0 \<le> e then 2 ^ nat e else 1 / 2 ^ nat (- e))"

fun bit_length :: "nat \<Rightarrow> nat" where
  "bit_length n = (if n = 0 then 0 else Suc (bit_length (n div 2)))"

declare bit_length.simps [simp del]

text \<open>The binary exponent of a positive rational: \<open>2 ^ ilog2 x \<le> x < 2 ^ (ilog2 x + 1)\<close>.\<close>

definition ilog2 :: "rat \<Rightarrow> int" where
  "ilog2 x = (if 1 \<le> x then int (bit_length (nat \<lfloor>x\<rfloor>)) - 1
              else - int (bit_length (nat (\<lceil>1 / x\<rceil> - 1))))"

definition fl :: "rat \<Rightarrow> pyfloat" where
  "fl x = (if x = 0 then 0
           else let e = max (ilog2 \<bar>x\<bar> - 52) (- 1074)
                in of_int (round_half_even (x / pow2 e)) * pow2 e)"

definition int_truediv :: "nat \<Rightarrow> nat \<Rightarrow> pyfloat" where
  "int_truediv a b = fl (of_nat a / of_nat b)"

definition float_mul :: "pyfloat \<Rightarrow> pyfloat \<Rightarrow> pyfloat" where
  "float_mul x y = fl (x * y)"

subsection \<open>Strings\<close>

text \<open>\<^verbatim>\<open>str(n)\<close> for a natural number.\<close>

definition digit_char :: "nat \<Rightarrow> char" where
  "digit_char d = ''0123456789'' ! d"

fun str_nat :: "nat \<Rightarrow> string" where
  "str_nat n = (if n < 10 then [digit_char n]
                else str_nat (n div 10) @ [digit_char (n mod 10)])"

declare str_nat.simps [simp del]

text \<open>
  The format \<^verbatim>\<open>:.2f\<close>: the exact value of the double rounded to two decimals, ties to
  even, printed with both decimals.
\<close>

definition format_2f :: "pyfloat \<Rightarrow> string" where
  "format_2f x =
     (let n = nat (round_half_even (\<bar>x\<bar> * 100))
      in (if x < 0 then ''-'' else []) @ str_nat (n div 100) @ ''.''
           @ [digit_char (n mod 100 div 10), digit_char (n mod 10)])"

text \<open>
  \<^verbatim>\<open>str.upper\<close>, \<^verbatim>\<open>str.title\<close> and \<^verbatim>\<open>str.ljust\<close> on ASCII text; the script applies them
  to the four status names only.
\<close>

definition is_lower :: "char \<Rightarrow> bool" where
  "is_lower c = (CHR ''a'' \<le> c \<and> c \<le> CHR ''z'')"

definition is_upper :: "char \<Rightarrow> bool" where
  "is_upper c = (CHR ''A'' \<le> c \<and> c \<le> CHR ''Z'')"

definition upper_char :: "char \<Rightarrow> char" where
  "upper_char c = (if is_lower c then char_of (of_char c - (32::nat)) else c)"

definition lower_char :: "char \<Rightarrow> char" where
  "lower_char c = (if is_upper c then char_of (of_char c + (32::nat)) else c)"

definition upper :: "string \<Rightarrow> string" where
  "upper s = map upper_char s"

fun title_from :: "bool \<Rightarrow> string \<Rightarrow> string" where
  "title_from prev_cased [] = []"
| "title_from prev_cased (c # cs) =
     (if is_lower c \<or> is_upper c
      then (if prev_cased then lower_char c else upper_char c) # title_from True cs
      else c # title_from False cs)"

definition title :: "string \<Rightarrow> string" where
  "title s = title_from False s"

definition ljust :: "nat \<Rightarrow> string \<Rightarrow> string" where
  "ljust width s = s @ replicate (width - length s) CHR '' ''"

section \<open>The comparison\<close>

datatype status = Identical | Missing | Different | Additional

fun status_name :: "status \<Rightarrow> string" where
  "status_name Identical = ''identical''"
| "status_name Missing = ''missing''"
| "status_name Different = ''different''"
| "status_name Additional = ''additional''"

record entry =
  status :: status
  path :: string

record report =
  total :: nat
  counts :: "status \<Rightarrow> nat"
  identical_ratio :: pyfloat
  results :: "entry list"

text \<open>
  A \<^verbatim>\<open>dict\<close> is an association list in insertion order; \<open>AList.update\<close> is the item
  assignment (a new key goes to the end, a known key keeps its place) and \<open>map_of\<close> is
  \<^verbatim>\<open>get\<close>. The comprehensions of lines 39 and 40 assign the files in order.
\<close>

fun relative_map :: "path \<Rightarrow> path list \<Rightarrow> (path \<times> path) list \<Rightarrow> error + (path \<times> path) list" where
  "relative_map base [] d = Inr d"
| "relative_map base (p # ps) d =
     (case relative_to p base of
        Inl e \<Rightarrow> Inl e
      | Inr k \<Rightarrow> relative_map base ps (AList.update k p d))"

text \<open>
  The body of the loop, lines 48 to 59. A \<^verbatim>\<open>Path\<close> is always true as a condition, so
  the tests ask whether \<^verbatim>\<open>get\<close> returned \<^verbatim>\<open>None\<close>.
\<close>

definition path_status ::
  "(bytes \<Rightarrow> string) \<Rightarrow> filesystem \<Rightarrow> path option \<Rightarrow> path option \<Rightarrow> error + status" where
  "path_status sha fs root_file template_file =
     (case (root_file, template_file) of
        (Some rf, Some tf) \<Rightarrow>
          (case hash_file sha fs rf of
             Inl e \<Rightarrow> Inl e
           | Inr h1 \<Rightarrow>
              (case hash_file sha fs tf of
                 Inl e \<Rightarrow> Inl e
               | Inr h2 \<Rightarrow> Inr (if h1 = h2 then Identical else Different)))
      | (None, Some tf) \<Rightarrow> Inr Missing
      | (_, None) \<Rightarrow> Inr Additional)"

fun compare_loop ::
  "(bytes \<Rightarrow> string) \<Rightarrow> filesystem \<Rightarrow> (path \<times> path) list \<Rightarrow> (path \<times> path) list \<Rightarrow>
   path list \<Rightarrow> (status \<Rightarrow> nat) \<times> entry list \<Rightarrow> error + (status \<Rightarrow> nat) \<times> entry list" where
  "compare_loop sha fs root_map template_map [] acc = Inr acc"
| "compare_loop sha fs root_map template_map (rel_path # rest) (cnt, res) =
     (case path_status sha fs (map_of root_map rel_path) (map_of template_map rel_path) of
        Inl e \<Rightarrow> Inl e
      | Inr st \<Rightarrow>
          compare_loop sha fs root_map template_map rest
            (cnt(st := cnt st + 1), res @ [\<lparr>status = st, path = str_rel rel_path\<rparr>]))"

text \<open>\<^verbatim>\<open>sum(counts.values())\<close> over the four keys of line 43.\<close>

definition sum_values :: "(status \<Rightarrow> nat) \<Rightarrow> nat" where
  "sum_values cnt = cnt Identical + cnt Missing + cnt Different + cnt Additional"

definition compare_assets ::
  "(bytes \<Rightarrow> string) \<Rightarrow> filesystem \<Rightarrow> path \<Rightarrow> path \<Rightarrow> error + report" where
  "compare_assets sha fs root_assets template_assets =
     (let root_files = gather_files fs root_assets;
          template_files = gather_files fs template_assets
      in case relative_map root_assets root_files [] of
           Inl e \<Rightarrow> Inl e
         | Inr root_map \<Rightarrow>
        (case relative_map template_assets template_files [] of
           Inl e \<Rightarrow> Inl e
         | Inr template_map \<Rightarrow>
        (let all_paths = sorted_list_of_set (set (map fst root_map) \<union> set (map fst template_map))
         in case compare_loop sha fs root_map template_map all_paths (\<lambda>_. 0, []) of
              Inl e \<Rightarrow> Inl e
            | Inr (cnt, res) \<Rightarrow>
                (let tot = sum_values cnt;
                     ratio = (if tot \<noteq> 0 then float_mul (int_truediv (cnt Identical) tot) 100
                              else 100)
                 in Inr \<lparr>total = tot, counts = cnt, identical_ratio = ratio, results = res\<rparr>))))"

section \<open>The reports\<close>

definition COLOR_RESET :: string where
  "COLOR_RESET = CHR 0x1B # ''[0m''"

fun COLORS :: "status \<Rightarrow> string" where
  "COLORS Identical = CHR 0x1B # ''[33m''"
| "COLORS Missing = CHR 0x1B # ''[31m''"
| "COLORS Different = CHR 0x1B # ''[32m''"
| "COLORS Additional = CHR 0x1B # ''[36m''"

definition SUMMARY_ORDER :: "status list" where
  "SUMMARY_ORDER = [Identical, Different, Missing, Additional]"

text \<open>Line 82, the header.\<close>

definition header_line :: "report \<Rightarrow> string" where
  "header_line r =
     ''Compared '' @ str_nat (total r) @ '' root files; '' @ str_nat (counts r Identical)
       @ '' identical ('' @ format_2f (identical_ratio r) @ ''%).''"

text \<open>Lines 86 to 90, the line of one result.\<close>

definition entry_line :: "bool \<Rightarrow> entry \<Rightarrow> string" where
  "entry_line use_color e =
     (let label = ljust 9 (upper (status_name (status e)));
          color = (if use_color then COLORS (status e) else []);
          reset = (if use_color then COLOR_RESET else [])
      in color @ ''['' @ label @ ''] '' @ path e @ reset)"

text \<open>Lines 95 to 100, the line of one status in the summary.\<close>

definition summary_line :: "report \<Rightarrow> bool \<Rightarrow> status \<Rightarrow> string" where
  "summary_line r use_color key =
     (let count = counts r key;
          percent = (if total r \<noteq> 0 then float_mul (int_truediv count (total r)) 100 else 0);
          color = (if use_color then COLORS key else []);
          reset = (if use_color then COLOR_RESET else []);
          ttl = ljust 9 (title (status_name key))
      in color @ ttl @ reset @ '': '' @ str_nat count @ '' files ('' @ format_2f percent @ ''%)'')"

definition text_lines :: "report \<Rightarrow> bool \<Rightarrow> string list" where
  "text_lines r use_color =
     [header_line r] @ map (entry_line use_color) (results r) @ [[], ''Summary:'']
       @ map (summary_line r use_color) SUMMARY_ORDER"

definition build_text_report :: "report \<Rightarrow> bool \<Rightarrow> string" where
  "build_text_report r use_color = join [CHR 0x0A] (text_lines r use_color)"

text \<open>
  The JSON document is kept as a value: \<^verbatim>\<open>json.dumps\<close> belongs to the standard library
  and is the parameter \<open>dumps\<close> (called with \<^verbatim>\<open>indent=2\<close>). The keys of \<^verbatim>\<open>counts\<close> come in
  the order of the literal at line 43.
\<close>

datatype json =
  JObject "(string \<times> json) list"
| JArray "json list"
| JString string
| JInt int
| JFloat pyfloat

definition counts_keys :: "status list" where
  "counts_keys = [Identical, Missing, Different, Additional]"

definition json_payload :: "report \<Rightarrow> json" where
  "json_payload r =
     JObject
       [(''total'', JInt (int (total r))),
        (''identical_ratio'', JFloat (identical_ratio r)),
        (''counts'', JObject (map (\<lambda>k. (status_name k, JInt (int (counts r k)))) counts_keys)),
        (''files'',
           JArray (map (\<lambda>e. JObject [(''status'', JString (status_name (status e))),
                                       (''path'', JString (path e))]) (results r)))]"

definition build_json_report :: "(json \<Rightarrow> string) \<Rightarrow> report \<Rightarrow> string" where
  "build_json_report dumps r = dumps (json_payload r)"

section \<open>The entry point\<close>

text \<open>
  A path on the command line is absolute or relative to the working directory.
  \<^verbatim>\<open>resolve\<close> makes it absolute and removes the \<^verbatim>\<open>..\<close> segments; the store has no
  symbolic links.
\<close>

datatype pypath = Absolute path | Relative path

fun resolve_from :: "path \<Rightarrow> path \<Rightarrow> path" where
  "resolve_from acc [] = acc"
| "resolve_from acc (s # ss) =
     (if s = ''..'' then resolve_from (butlast acc) ss
      else if s = ''.'' then resolve_from acc ss
      else resolve_from (acc @ [s]) ss)"

fun resolve :: "path \<Rightarrow> pypath \<Rightarrow> path" where
  "resolve cwd (Absolute p) = resolve_from [] p"
| "resolve cwd (Relative p) = resolve_from cwd p"

datatype format = TextFormat | JsonFormat

text \<open>
  What the user wrote: the positional arguments in order and the options that were
  given. \<^verbatim>\<open>parse_args\<close> fills in the defaults of lines 117 to 162 and leaves with a usage
  error on a third positional argument.
\<close>

record cmdline =
  positionals :: "pypath list"
  opt_format :: "format option"
  opt_input :: "pypath option"
  opt_template :: "pypath option"
  opt_report :: "pypath option"

record namespace =
  root :: pypath
  template :: pypath
  format :: format
  input_path :: "pypath option"
  template_path :: "pypath option"
  report_file :: "pypath option"

definition default_root :: "path \<Rightarrow> pypath" where
  "default_root cwd = Absolute (cwd @ [''assets''])"

definition default_template :: pypath where
  "default_template = Relative [''.packs'', ''template-1.21.11'', ''assets'']"

definition parse_args :: "path \<Rightarrow> cmdline \<Rightarrow> error + namespace" where
  "parse_args cwd cmd =
     (if 2 < length (positionals cmd) then Inl (SystemExit ''usage'')
      else Inr \<lparr>root = (case positionals cmd of [] \<Rightarrow> default_root cwd | a # _ \<Rightarrow> a),
                template = (case positionals cmd of _ # b # _ \<Rightarrow> b | _ \<Rightarrow> default_template),
                format = (case opt_format cmd of None \<Rightarrow> TextFormat | Some f \<Rightarrow> f),
                input_path = opt_input cmd,
                template_path = opt_template cmd,
                report_file = opt_report cmd\<rparr>)"

record environment =
  env_fs :: filesystem
  env_cwd :: path
  env_isatty :: bool

text \<open>
  What a run does to the outside: \<open>Print s\<close> is \<^verbatim>\<open>print(s)\<close> on standard output,
  \<open>WriteText f s\<close> is \<^verbatim>\<open>f.write_text(s)\<close> after the parent directory has been made.
  A \<^verbatim>\<open>SystemExit\<close> with a message ends the process with the message on standard error
  and exit status 1.
\<close>

datatype effect = Print string | WriteText pypath string

text \<open>
  \<^verbatim>\<open>a or b\<close> at lines 165 and 166: a \<^verbatim>\<open>Path\<close> is never false, so the option wins
  whenever it was given.
\<close>

definition path_or :: "pypath option \<Rightarrow> pypath \<Rightarrow> pypath" where
  "path_or a b = (case a of Some p \<Rightarrow> p | None \<Rightarrow> b)"

definition main ::
  "(bytes \<Rightarrow> string) \<Rightarrow> (json \<Rightarrow> string) \<Rightarrow> environment \<Rightarrow> cmdline \<Rightarrow> error + effect" where
  "main sha dumps env cmd =
     (case parse_args (env_cwd env) cmd of
        Inl e \<Rightarrow> Inl e
      | Inr args \<Rightarrow>
     (let root_assets = resolve (env_cwd env) (path_or (input_path args) (root args));
          template_assets = resolve (env_cwd env) (path_or (template_path args) (template args))
      in if \<not> exists_path (env_fs env) root_assets
         then Inl (SystemExit (''Root assets folder not found: '' @ str_abs root_assets))
         else if \<not> exists_path (env_fs env) template_assets
         then Inl (SystemExit (''Template assets folder not found: '' @ str_abs template_assets))
         else
          (case compare_assets sha (env_fs env) root_assets template_assets of
             Inl e \<Rightarrow> Inl e
           | Inr rep \<Rightarrow>
              (let output_text =
                     (if format args = JsonFormat then build_json_report dumps rep
                      else (let color_enabled = (report_file args = None \<and> env_isatty env)
                            in build_text_report rep color_enabled))
               in case report_file args of
                    Some f \<Rightarrow> Inr (WriteText f (output_text @ [CHR 0x0A]))
                  | None \<Rightarrow> Inr (Print output_text)))))"

section \<open>Reading the reports back\<close>


definition has_color :: "string \<Rightarrow> bool" where
  "has_color s = (CHR 0x1B \<in> set s)"
















section \<open>Trees and the rule of the specification\<close>

text \<open>
  The tree below a base directory, as the specification sees it: the content of every
  regular file, by its path relative to the base. The base itself is not part of its own
  tree. \<open>rule_status\<close> is the four-way rule of the specification on the two contents
  of one relative path, and \<open>rule_report\<close> the report that rule prescribes for two
  trees; both follow the specification and are compared with the code below. A path
  that is in neither tree gets a status by the last equation, which no result uses.
\<close>

fun rule_status :: "(bytes \<Rightarrow> string) \<Rightarrow> bytes option \<Rightarrow> bytes option \<Rightarrow> status" where
  "rule_status sha (Some x) (Some y) = (if sha x = sha y then Identical else Different)"
| "rule_status sha None (Some y) = Missing"
| "rule_status sha a None = Additional"

definition tree :: "filesystem \<Rightarrow> path \<Rightarrow> path \<Rightarrow> bytes option" where
  "tree fs base rel = (if rel = [] then None else map_of (files fs) (base @ rel))"

definition tree_paths :: "filesystem \<Rightarrow> path \<Rightarrow> path set" where
  "tree_paths fs base = dom (tree fs base)"

definition rule_entry :: "(bytes \<Rightarrow> string) \<Rightarrow> (path \<Rightarrow> bytes option) \<Rightarrow> (path \<Rightarrow> bytes option) \<Rightarrow> path \<Rightarrow> entry" where
  "rule_entry sha R T rel = \<lparr>status = rule_status sha (R rel) (T rel), path = str_rel rel\<rparr>"

definition rule_report :: "(bytes \<Rightarrow> string) \<Rightarrow> (path \<Rightarrow> bytes option) \<Rightarrow> (path \<Rightarrow> bytes option) \<Rightarrow> report" where
  "rule_report sha R T =
     (let ps = sorted_list_of_set (dom R \<union> dom T);
          sts = map (\<lambda>rel. rule_status sha (R rel) (T rel)) ps;
          n = length ps
      in \<lparr>total = n,
          counts = count_list sts,
          identical_ratio = (if n \<noteq> 0 then float_mul (int_truediv (count_list sts Identical) n) 100 else 100),
          results = map (rule_entry sha R T) ps\<rparr>)"

section \<open>Example file systems\<close>

text \<open>
  Two empty directories; one file with the same content on both sides; the same two
  trees stored elsewhere, enumerated in another order and next to unrelated entries.
\<close>

definition fs_empty :: filesystem where
  "fs_empty = \<lparr>files = [], dirs = [[''r''], [''t'']]\<rparr>"

definition fs_same :: filesystem where
  "fs_same = \<lparr>files = [([''r'', ''a.txt''], ''X''), ([''t'', ''a.txt''], ''X'')], dirs = []\<rparr>"

definition fs_moved :: filesystem where
  "fs_moved = \<lparr>files = [([''x'', ''t'', ''a.txt''], ''X''), ([''other'', ''z''], ''Q''),
                         ([''x'', ''r'', ''a.txt''], ''X'')], dirs = [[''x'', ''r'', ''d'']]\<rparr>"

text \<open>A root with a file in a directory \<^verbatim>\<open>a\<close> and a file \<^verbatim>\<open>a.txt\<close>, and an empty template.\<close>

definition fs_order :: filesystem where
  "fs_order = \<lparr>files = [([''r'', ''a.txt''], ''X''), ([''r'', ''a'', ''b''], ''Y'')], dirs = [[''t'']]\<rparr>"

text \<open>
  The scenario of the specification: the root holds \<^verbatim>\<open>a.txt\<close> with content X, the
  template holds \<^verbatim>\<open>a.txt\<close> with content X and \<^verbatim>\<open>b.txt\<close> with content Y.
\<close>

definition fs_scenario :: filesystem where
  "fs_scenario = \<lparr>files = [([''root'', ''a.txt''], ''X''), ([''template'', ''a.txt''], ''X''),
                            ([''template'', ''b.txt''], ''Y'')], dirs = []\<rparr>"

text \<open>
  Two environments on that file system, with and without a terminal on standard output,
  some command lines, and a stand-in for the serialiser, which prints every document as
  an empty object: the examples need some function in the place of \<^verbatim>\<open>json.dumps\<close>, and
  nothing is proved from the choice.
\<close>

definition env_example :: environment where
  "env_example = \<lparr>env_fs = fs_scenario, env_cwd = [''home''], env_isatty = True\<rparr>"

definition cmd_default :: cmdline where
  "cmd_default = \<lparr>positionals = [], opt_format = None, opt_input = None, opt_template = None,
                   opt_report = None\<rparr>"

definition cmd_flags :: cmdline where
  "cmd_flags = \<lparr>positionals = [Absolute [''root''], Absolute [''template'']], opt_format = None,
                 opt_input = Some (Absolute [''elsewhere'']), opt_template = None,
                 opt_report = None\<rparr>"

definition dumps_example :: "json \<Rightarrow> string" where
  "dumps_example j = ''{}''"




text \<open>
  Padding on the left, the reading of the specification's ``left-padded to width 9'',
  and the result line that reading describes; the code calls \<^verbatim>\<open>ljust\<close> instead.
\<close>

definition left_pad :: "nat \<Rightarrow> string \<Rightarrow> string" where
  "left_pad width s = replicate (width - length s) CHR '' '' @ s"

definition left_padded_entry_line :: "entry \<Rightarrow> string" where
  "left_padded_entry_line e =
     ''['' @ left_pad 9 (upper (status_name (status e))) @ ''] '' @ path e"

section \<open>The comparison follows the rule\<close>

lemma is_file_entries: "is_file fs p \<Longrightarrow> p \<in> set (entries fs)"
proof -
  assume "is_file fs p"
  then obtain c where "(p, c) \<in> set (files fs)"
    by (auto simp: is_file_def dest: map_of_SomeD)
  then have "p \<in> fst ` set (files fs)" by force
  moreover have "p \<in> set (prefixes p)" by (simp add: in_set_prefixes)
  ultimately show ?thesis by (auto simp: entries_def)
qed

lemma set_gather_files: "set (gather_files fs base) = {p. strict_prefix base p \<and> is_file fs p}"
  by (auto simp: gather_files_def rglob_def is_file_entries)

lemma distinct_gather_files: "distinct (gather_files fs base)"
  by (simp add: gather_files_def rglob_def entries_def)

lemma gather_files_rel: "base @ rel \<in> set (gather_files fs base) \<longleftrightarrow> rel \<in> tree_paths fs base"
  by (auto simp: set_gather_files tree_paths_def tree_def is_file_def strict_prefix_def split: if_splits)

lemma relative_map_Inr:
  "\<forall>p\<in>set ps. prefix base p \<Longrightarrow>
   \<exists>m. relative_map base ps d = Inr m \<and>
       (\<forall>rel. map_of m rel = (if base @ rel \<in> set ps then Some (base @ rel) else map_of d rel))"
proof (induction ps arbitrary: d)
  case Nil
  then show ?case by simp
next
  case (Cons p ps)
  from Cons.prems obtain k where k: "p = base @ k" by (auto simp: prefix_def)
  from Cons.prems have "\<forall>p\<in>set ps. prefix base p" by simp
  from Cons.IH [OF this, of "AList.update k p d"] obtain m where
    m: "relative_map base ps (AList.update k p d) = Inr m"
       "\<And>rel. map_of m rel = (if base @ rel \<in> set ps then Some (base @ rel)
                               else map_of (AList.update k p d) rel)"
    by blast
  have "relative_map base (p # ps) d = Inr m"
    using m(1) k by (simp add: relative_to_def)
  moreover have "map_of m rel = (if base @ rel \<in> set (p # ps) then Some (base @ rel) else map_of d rel)" for rel
    using m(2) [of rel] k by (auto simp: update_conv')
  ultimately show ?case by blast
qed

lemma relative_map_gather:
  "\<exists>m. relative_map base (gather_files fs base) [] = Inr m \<and>
       (\<forall>rel. map_of m rel = (if rel \<in> tree_paths fs base then Some (base @ rel) else None)) \<and>
       fst ` set m = tree_paths fs base"
proof -
  have "\<forall>p\<in>set (gather_files fs base). prefix base p"
    by (auto simp: set_gather_files strict_prefix_def)
  from relative_map_Inr [OF this, of "[]"] obtain m where
    m: "relative_map base (gather_files fs base) [] = Inr m"
       "\<And>rel. map_of m rel = (if base @ rel \<in> set (gather_files fs base) then Some (base @ rel) else None)"
    by auto
  have a: "map_of m rel = (if rel \<in> tree_paths fs base then Some (base @ rel) else None)" for rel
    using m(2) [of rel] by (simp add: gather_files_rel)
  have "fst ` set m = dom (map_of m)" by (simp add: dom_map_of_conv_image_fst)
  also have "\<dots> = tree_paths fs base" by (auto simp: a dom_def split: if_splits)
  finally show ?thesis using m(1) a by blast
qed

lemma hash_file_tree:
  "tree fs base rel = Some c \<Longrightarrow> hash_file sha fs (base @ rel) = Inr (sha c)"
  by (auto simp: tree_def hash_file_def split: if_splits)

lemma path_status_tree:
  assumes "\<And>rel. map_of rm rel = (if rel \<in> tree_paths fs a then Some (a @ rel) else None)"
      and "\<And>rel. map_of tm rel = (if rel \<in> tree_paths fs b then Some (b @ rel) else None)"
  shows "path_status sha fs (map_of rm rel) (map_of tm rel)
         = Inr (rule_status sha (tree fs a rel) (tree fs b rel))"
proof (cases "tree fs a rel")
  case None
  then show ?thesis
    by (cases "tree fs b rel") (auto simp add: assms path_status_def tree_paths_def)
next
  case (Some x)
  then show ?thesis
    by (cases "tree fs b rel")
      (auto simp add: assms path_status_def tree_paths_def hash_file_tree)
qed

lemma compare_loop_Inr:
  assumes "\<And>rel. path_status sha fs (map_of rm rel) (map_of tm rel) = Inr (f rel)"
  shows "compare_loop sha fs rm tm ps (cnt, res)
         = Inr (\<lambda>s. cnt s + count_list (map f ps) s,
                res @ map (\<lambda>rel. \<lparr>status = f rel, path = str_rel rel\<rparr>) ps)"
proof (induction ps arbitrary: cnt res)
  case Nil
  then show ?case by simp
next
  case (Cons rel ps)
  have "(\<lambda>s. (cnt(f rel := cnt (f rel) + 1)) s + count_list (map f ps) s)
        = (\<lambda>s. cnt s + count_list (map f (rel # ps)) s)"
    by (rule ext) simp
  then show ?case by (simp add: assms Cons.IH)
qed


lemma count_list_status: "sum_values (count_list sts) = length sts"
proof (induction sts)
  case Nil
  then show ?case by (simp add: sum_values_def)
next
  case (Cons s sts)
  then show ?case by (cases s) (simp_all add: sum_values_def)
qed

lemma compare_assets_rule:
  "compare_assets sha fs a b = Inr (rule_report sha (tree fs a) (tree fs b))"
proof -
  obtain rm where rm: "relative_map a (gather_files fs a) [] = Inr rm"
      "\<And>rel. map_of rm rel = (if rel \<in> tree_paths fs a then Some (a @ rel) else None)"
      "fst ` set rm = tree_paths fs a"
    using relative_map_gather [of a fs] by blast
  obtain tm where tm: "relative_map b (gather_files fs b) [] = Inr tm"
      "\<And>rel. map_of tm rel = (if rel \<in> tree_paths fs b then Some (b @ rel) else None)"
      "fst ` set tm = tree_paths fs b"
    using relative_map_gather [of b fs] by blast
  define f where "f = (\<lambda>rel. rule_status sha (tree fs a rel) (tree fs b rel))"
  define ps where "ps = sorted_list_of_set (tree_paths fs a \<union> tree_paths fs b)"
  have st: "path_status sha fs (map_of rm rel) (map_of tm rel) = Inr (f rel)" for rel
    unfolding f_def by (rule path_status_tree [OF rm(2) tm(2)])
  have loop: "compare_loop sha fs rm tm ps (\<lambda>_. 0, [])
        = Inr (count_list (map f ps), map (\<lambda>rel. \<lparr>status = f rel, path = str_rel rel\<rparr>) ps)"
    using compare_loop_Inr [of sha fs rm tm f ps "\<lambda>_. 0" "[]", OF st] by simp
  have all_paths: "sorted_list_of_set (fst ` set rm \<union> fst ` set tm) = ps"
    by (simp add: ps_def rm(3) tm(3))
  have rule: "rule_report sha (tree fs a) (tree fs b)
      = \<lparr>total = length ps, counts = count_list (map f ps),
         identical_ratio = (if length ps \<noteq> 0
            then float_mul (int_truediv (count_list (map f ps) Identical) (length ps)) 100 else 100),
         results = map (\<lambda>rel. \<lparr>status = f rel, path = str_rel rel\<rparr>) ps\<rparr>"
    unfolding rule_report_def Let_def ps_def f_def tree_paths_def rule_entry_def by (rule refl)
  show ?thesis
    unfolding rule
    by (simp add: compare_assets_def rm(1) tm(1) all_paths loop count_list_status Let_def)
qed

lemma finite_tree_paths: "finite (tree_paths fs base)"
proof -
  obtain m :: "(path \<times> path) list" where "fst ` set m = tree_paths fs base"
    using relative_map_gather [of base fs] by blast
  then show ?thesis by (metis finite_imageI finite_set)
qed

lemma rule_entry_hash:
  "rule_entry sha (tree fs a) (tree fs b) rel =
     \<lparr>status = (if rel \<in> tree_paths fs a \<and> rel \<in> tree_paths fs b
                 then (if hash_file sha fs (a @ rel) = hash_file sha fs (b @ rel)
                       then Identical else Different)
                 else if rel \<in> tree_paths fs b then Missing else Additional),
      path = str_rel rel\<rparr>"
proof (cases "tree fs a rel")
  case None
  then show ?thesis
    by (cases "tree fs b rel") (auto simp: rule_entry_def tree_paths_def)
next
  case (Some x)
  then show ?thesis
    by (cases "tree fs b rel") (auto simp: rule_entry_def tree_paths_def hash_file_tree)
qed

lemma fl_one: "fl 1 = 1"
  by code_simp

lemma fl_hundred: "fl 100 = 100"
  by code_simp

lemma ratio_all: "0 < n \<Longrightarrow> float_mul (int_truediv n n) 100 = 100"
  by (simp add: float_mul_def int_truediv_def fl_one fl_hundred)

text \<open>
  Claim C1. For every file system and every pair of base directories the comparison
  returns a report. Its results are one entry for each relative path of the union of
  the two trees, each path once, in the lexicographic order of the paths (by segment,
  see the first section); the entry carries the printed path and the status of the
  four-way rule: in both trees with equal digests, identical; in both with differing
  digests, different; in the template tree only, missing; in the root tree only,
  additional.
\<close>

theorem compare_assets_results:
  "\<exists>r ps. compare_assets sha fs root_assets template_assets = Inr r \<and>
     set ps = tree_paths fs root_assets \<union> tree_paths fs template_assets \<and>
     distinct ps \<and> sorted ps \<and>
     results r =
       map (\<lambda>rel.
          \<lparr>status =
             (if rel \<in> tree_paths fs root_assets \<and> rel \<in> tree_paths fs template_assets
              then (if hash_file sha fs (root_assets @ rel) = hash_file sha fs (template_assets @ rel)
                    then Identical else Different)
              else if rel \<in> tree_paths fs template_assets then Missing else Additional),
           path = str_rel rel\<rparr>) ps"
proof -
  let ?U = "tree_paths fs root_assets \<union> tree_paths fs template_assets"
  have fin: "finite ?U" by (simp add: finite_tree_paths)
  have "results (rule_report sha (tree fs root_assets) (tree fs template_assets))
        = map (rule_entry sha (tree fs root_assets) (tree fs template_assets)) (sorted_list_of_set ?U)"
    by (simp add: rule_report_def Let_def tree_paths_def)
  then show ?thesis
    using fin by (intro exI [of _ "rule_report sha (tree fs root_assets) (tree fs template_assets)"]
        exI [of _ "sorted_list_of_set ?U"]) (simp add: compare_assets_rule rule_entry_hash)
qed

text \<open>
  The order is that of the paths as sequences of segments, which is how \<^verbatim>\<open>pathlib\<close>
  compares them and how the specification describes a relative path. It is not always
  the order of the printed strings: \<^verbatim>\<open>a/b\<close> comes before \<^verbatim>\<open>a.txt\<close> because the segment
  \<^verbatim>\<open>a\<close> is a prefix of \<^verbatim>\<open>a.txt\<close>, while the dot is smaller than the slash.
\<close>

lemma order_by_segments:
  "map path (results (projr (compare_assets id fs_order [''r''] [''t'']))) = [''a/b'', ''a.txt''] \<and>
   [''a'', ''b''] < [''a.txt''] \<and> ''a.txt'' < ''a/b''"
  by code_simp

text \<open>
  Claim C9. The four counts of a report add up to its total, and the total is the
  number of entries in its results.
\<close>

theorem compare_assets_counts_total:
  "\<exists>r. compare_assets sha fs root_assets template_assets = Inr r \<and>
     counts r Identical + counts r Different + counts r Missing + counts r Additional = total r \<and>
     total r = length (results r)"
proof -
  let ?r = "rule_report sha (tree fs root_assets) (tree fs template_assets)"
  have "sum_values (counts ?r) = total ?r"
    by (simp add: rule_report_def Let_def count_list_status del: length_sorted_list_of_set)
  moreover have "total ?r = length (results ?r)"
    by (simp add: rule_report_def Let_def del: length_sorted_list_of_set)
  ultimately show ?thesis
    by (intro exI [of _ ?r]) (simp add: compare_assets_rule sum_values_def)
qed

lemma count_list_const: "\<forall>x\<in>set xs. f x = c \<Longrightarrow> count_list (map f xs) c = length xs"
  by (induction xs) simp_all

lemma rule_status_same: "R rel \<noteq> None \<Longrightarrow> rule_status sha (R rel) (R rel) = Identical"
  by (cases "R rel") simp_all

text \<open>
  Claim C2. The ratio of a report is the float quotient of the identical count by the
  total, times 100, when the total is not zero, and 100 when it is zero. It is 100 when
  both trees are empty, and 100 when the two trees hold the same files with the same
  bytes and are not empty.
\<close>

theorem identical_ratio_value:
  "\<exists>r. compare_assets sha fs root_assets template_assets = Inr r \<and>
     identical_ratio r =
       (if total r = 0 then 100 else float_mul (int_truediv (counts r Identical) (total r)) 100) \<and>
     (tree_paths fs root_assets = {} \<and> tree_paths fs template_assets = {}
        \<longrightarrow> identical_ratio r = 100) \<and>
     (tree fs root_assets = tree fs template_assets \<and> tree_paths fs root_assets \<noteq> {}
        \<longrightarrow> identical_ratio r = 100)"
proof -
  let ?R = "tree fs root_assets" and ?T = "tree fs template_assets"
  let ?r = "rule_report sha ?R ?T"
  have a: "identical_ratio ?r =
       (if total ?r = 0 then 100 else float_mul (int_truediv (counts ?r Identical) (total ?r)) 100)"
    by (simp add: rule_report_def Let_def del: length_sorted_list_of_set)
  have b: "identical_ratio ?r = 100" if "tree_paths fs root_assets = {} \<and> tree_paths fs template_assets = {}"
    using that by (simp add: rule_report_def Let_def tree_paths_def)
  have c: "identical_ratio ?r = 100" if h: "?R = ?T \<and> tree_paths fs root_assets \<noteq> {}"
  proof -
    define ps where "ps = sorted_list_of_set (dom ?R \<union> dom ?R)"
    have fin: "finite (dom ?R)" using finite_tree_paths [of fs root_assets] by (simp add: tree_paths_def)
    then have mem: "set ps = dom ?R" by (simp add: ps_def)
    have "dom ?R \<noteq> {}" using h unfolding tree_paths_def by blast
    with mem have "ps \<noteq> []" by (metis set_empty)
    then have len: "0 < length ps" by simp
    have "\<forall>rel\<in>set ps. rule_status sha (?R rel) (?R rel) = Identical"
      using mem by (auto simp: rule_status_same)
    then have cnt: "count_list (map (\<lambda>rel. rule_status sha (?R rel) (?R rel)) ps) Identical = length ps"
      by (rule count_list_const)
    have "identical_ratio (rule_report sha ?R ?R) = float_mul (int_truediv (length ps) (length ps)) 100"
      unfolding rule_report_def Let_def ps_def [symmetric] using len cnt by simp
    then show ?thesis using h len by (simp add: ratio_all)
  qed
  show ?thesis
    by (intro exI [of _ ?r]) (use a b c in \<open>simp add: compare_assets_rule\<close>)
qed

text \<open>
  Claim C7. The report is a function of the two trees alone, that is of the relative
  paths and the contents below the two base directories: two runs that see the same
  trees return the same report, whatever else the file system holds, wherever the trees
  are and in whatever order the directory walk yields the files. A second run on an
  unchanged file system is the case where the two file systems are the same.
\<close>

theorem compare_assets_deterministic:
  "tree fs root_assets = tree fs' root_assets' \<Longrightarrow>
   tree fs template_assets = tree fs' template_assets' \<Longrightarrow>
   compare_assets sha fs root_assets template_assets
     = compare_assets sha fs' root_assets' template_assets'"
  by (simp add: compare_assets_rule)


theorem identical_ratio_value_witness:
  "(tree_paths fs_empty [''r''] = {} \<and> tree_paths fs_empty [''t''] = {} \<and>
      (\<exists>r. compare_assets id fs_empty [''r''] [''t''] = Inr r \<and> identical_ratio r = 100)) \<and>
   (tree fs_same [''r''] = tree fs_same [''t''] \<and> tree_paths fs_same [''r''] \<noteq> {} \<and>
      (\<exists>r. compare_assets id fs_same [''r''] [''t''] = Inr r \<and> identical_ratio r = 100))"
proof -
  have e: "tree_paths fs_empty [''r''] = {}" "tree_paths fs_empty [''t''] = {}"
    by (auto simp: tree_paths_def tree_def fs_empty_def)
  have s1: "tree fs_same [''r''] = tree fs_same [''t'']"
    by (auto simp: tree_def fs_same_def fun_eq_iff)
  have "[''a.txt''] \<in> tree_paths fs_same [''r'']"
    by (simp add: tree_paths_def tree_def fs_same_def dom_def)
  then have s2: "tree_paths fs_same [''r''] \<noteq> {}" by blast
  from identical_ratio_value [of id fs_empty "[''r'']" "[''t'']"] e
  have "\<exists>r. compare_assets id fs_empty [''r''] [''t''] = Inr r \<and> identical_ratio r = 100"
    by blast
  moreover from identical_ratio_value [of id fs_same "[''r'']" "[''t'']"] s1 s2
  have "\<exists>r. compare_assets id fs_same [''r''] [''t''] = Inr r \<and> identical_ratio r = 100"
    by blast
  ultimately show ?thesis using e s1 s2 by blast
qed

theorem compare_assets_deterministic_witness:
  "tree fs_same [''r''] = tree fs_moved [''x'', ''r''] \<and>
   tree fs_same [''t''] = tree fs_moved [''x'', ''t''] \<and>
   compare_assets id fs_same [''r''] [''t'']
     = compare_assets id fs_moved [''x'', ''r''] [''x'', ''t'']"
proof -
  have a: "tree fs_same [''r''] = tree fs_moved [''x'', ''r'']"
    by (auto simp: tree_def fs_same_def fs_moved_def fun_eq_iff)
  have b: "tree fs_same [''t''] = tree fs_moved [''x'', ''t'']"
    by (auto simp: tree_def fs_same_def fs_moved_def fun_eq_iff)
  from compare_assets_deterministic [OF a b, of id] a b show ?thesis by blast
qed

section \<open>The text report\<close>

lemma str_nat_small:
  "str_nat 0 = ''0''" "str_nat 1 = ''1''" "str_nat (Suc 0) = ''1''" "str_nat 2 = ''2''"
  by (simp_all add: str_nat.simps digit_char_def)

lemma zero_ratio: "float_mul (int_truediv 0 n) 100 = 0"
  by (simp add: float_mul_def int_truediv_def fl_def)

lemma format_2f_values:
  "format_2f 0 = ''0.00''" "format_2f 50 = ''50.00''" "format_2f 100 = ''100.00''"
  by (simp_all add: format_2f_def round_half_even_def Let_def str_nat.simps digit_char_def)

lemma titles:
  "ljust 9 (title ''identical'') = ''Identical''"
  "ljust 9 (title ''different'') = ''Different''"
  "ljust 9 (title ''missing'') = ''Missing  ''"
  "ljust 9 (title ''additional'') = ''Additional''"
  by code_simp+

lemma labels:
  "ljust 9 (upper ''identical'') = ''IDENTICAL''"
  "ljust 9 (upper ''different'') = ''DIFFERENT''"
  "ljust 9 (upper ''missing'') = ''MISSING  ''"
  "ljust 9 (upper ''additional'') = ''ADDITIONAL''"
  by code_simp+

lemma count_list_Nil_fun: "count_list [] = (\<lambda>_. 0)"
  by (rule ext) simp

lemma rule_report_empty:
  "dom R \<union> dom T = {} \<Longrightarrow>
   rule_report sha R T = \<lparr>total = 0, counts = (\<lambda>_. 0), identical_ratio = 100, results = []\<rparr>"
  unfolding rule_report_def Let_def by (simp add: count_list_Nil_fun)

text \<open>
  Claim C10. When the union of the two trees is empty the total is zero, the header of
  the text report states an identical percentage of 100.00, and each of the four lines
  of the summary states 0.00: the percentage of the summary falls back to 0 on a zero
  total, the ratio of the report to 100.
\<close>

theorem empty_union_text_report:
  "tree_paths fs root_assets = {} \<Longrightarrow> tree_paths fs template_assets = {} \<Longrightarrow>
   \<exists>r. compare_assets sha fs root_assets template_assets = Inr r \<and> total r = 0 \<and>
     text_lines r use_color =
       [''Compared 0 root files; 0 identical (100.00%).'',
        [],
        ''Summary:'',
        (if use_color then COLORS Identical else []) @ ''Identical''
          @ (if use_color then COLOR_RESET else []) @ '': 0 files (0.00%)'',
        (if use_color then COLORS Different else []) @ ''Different''
          @ (if use_color then COLOR_RESET else []) @ '': 0 files (0.00%)'',
        (if use_color then COLORS Missing else []) @ ''Missing  ''
          @ (if use_color then COLOR_RESET else []) @ '': 0 files (0.00%)'',
        (if use_color then COLORS Additional else []) @ ''Additional''
          @ (if use_color then COLOR_RESET else []) @ '': 0 files (0.00%)'']"
proof -
  assume "tree_paths fs root_assets = {}" "tree_paths fs template_assets = {}"
  then have "dom (tree fs root_assets) \<union> dom (tree fs template_assets) = {}"
    unfolding tree_paths_def by blast
  then have "compare_assets sha fs root_assets template_assets
      = Inr \<lparr>total = 0, counts = (\<lambda>_. 0), identical_ratio = 100, results = []\<rparr>"
    by (simp only: compare_assets_rule rule_report_empty)
  then show ?thesis
    by (simp add: text_lines_def header_line_def summary_line_def SUMMARY_ORDER_def
        str_nat_small format_2f_values titles Let_def)
qed

theorem empty_union_text_report_witness:
  "tree_paths fs_empty [''r''] = {} \<and> tree_paths fs_empty [''t''] = {} \<and>
   (\<exists>r. compare_assets id fs_empty [''r''] [''t''] = Inr r \<and> total r = 0 \<and>
      text_lines r False =
        [''Compared 0 root files; 0 identical (100.00%).'', [], ''Summary:'',
         ''Identical: 0 files (0.00%)'', ''Different: 0 files (0.00%)'',
         ''Missing  : 0 files (0.00%)'', ''Additional: 0 files (0.00%)''])"
proof -
  have e: "tree_paths fs_empty [''r''] = {}" "tree_paths fs_empty [''t''] = {}"
    by (auto simp: tree_paths_def tree_def fs_empty_def)
  from empty_union_text_report [OF e, of id False] show ?thesis using e by simp
qed

text \<open>
  Claim C5, as amended. The text report is the header, one line per result entry, an
  empty line, the line \<^verbatim>\<open>Summary:\<close> and one line per status in the order identical,
  different, missing, additional, with its count and percentage. A result line shows
  the upper-case status between brackets, left-justified, that is padded with spaces on
  the right to a width of at least 9 (\<^verbatim>\<open>ADDITIONAL\<close> has ten characters and is printed as
  it is), and then the path. With colour the result line and the title of a summary line
  are wrapped in the code of the status (33 yellow for identical, 32 green for
  different, 31 red for missing, 36 cyan for additional) and the reset code.
\<close>

theorem text_report_layout:
  "text_lines r use_color =
     [''Compared '' @ str_nat (total r) @ '' root files; '' @ str_nat (counts r Identical)
        @ '' identical ('' @ format_2f (identical_ratio r) @ ''%).'']
     @ map (\<lambda>e. (if use_color then COLORS (status e) else [])
                @ ''[''
                @ (case status e of
                     Identical \<Rightarrow> ''IDENTICAL'' | Different \<Rightarrow> ''DIFFERENT''
                   | Missing \<Rightarrow> ''MISSING  '' | Additional \<Rightarrow> ''ADDITIONAL'')
                @ ''] '' @ path e
                @ (if use_color then COLOR_RESET else [])) (results r)
     @ [[], ''Summary:'']
     @ map (\<lambda>(key, ttl).
              (if use_color then COLORS key else []) @ ttl
                @ (if use_color then COLOR_RESET else [])
                @ '': '' @ str_nat (counts r key) @ '' files (''
                @ format_2f (if total r \<noteq> 0 then float_mul (int_truediv (counts r key) (total r)) 100
                             else 0)
                @ ''%)'')
         [(Identical, ''Identical''), (Different, ''Different''),
          (Missing, ''Missing  ''), (Additional, ''Additional'')] \<and>
   build_text_report r use_color = join [CHR 0x0A] (text_lines r use_color) \<and>
   COLORS Identical = CHR 0x1B # ''[33m'' \<and> COLORS Different = CHR 0x1B # ''[32m'' \<and>
   COLORS Missing = CHR 0x1B # ''[31m'' \<and> COLORS Additional = CHR 0x1B # ''[36m'' \<and>
   COLOR_RESET = CHR 0x1B # ''[0m''"
proof -
  have "entry_line use_color e =
      (if use_color then COLORS (status e) else [])
                @ ''[''
                @ (case status e of
                     Identical \<Rightarrow> ''IDENTICAL'' | Different \<Rightarrow> ''DIFFERENT''
                   | Missing \<Rightarrow> ''MISSING  '' | Additional \<Rightarrow> ''ADDITIONAL'')
                @ ''] '' @ path e
                @ (if use_color then COLOR_RESET else [])" for e
    by (cases "status e") (simp_all add: entry_line_def labels)
  then show ?thesis
    by (simp add: text_lines_def header_line_def summary_line_def SUMMARY_ORDER_def titles Let_def
        build_text_report_def COLOR_RESET_def)
qed

lemma gather_scenario:
  "gather_files fs_scenario [''root''] = [[''root'', ''a.txt'']]"
  "gather_files fs_scenario [''template'']
     = [[''template'', ''a.txt''], [''template'', ''b.txt'']]"
  by code_simp+

lemma relative_scenario:
  "relative_map [''root''] [[''root'', ''a.txt'']] [] = Inr [([''a.txt''], [''root'', ''a.txt''])]"
  "relative_map [''template''] [[''template'', ''a.txt''], [''template'', ''b.txt'']] []
     = Inr [([''a.txt''], [''template'', ''a.txt'']), ([''b.txt''], [''template'', ''b.txt''])]"
  by code_simp+

lemma all_paths_scenario:
  "sorted_list_of_set
     (set (map fst [([''a.txt''], [''root'', ''a.txt''])])
      \<union> set (map fst [([''a.txt''], [''template'', ''a.txt'']),
                       ([''b.txt''], [''template'', ''b.txt''])]))
   = [[''a.txt''], [''b.txt'']]"
  by code_simp

lemma half: "float_mul (int_truediv (Suc 0) (Suc (Suc 0))) 100 = 50"
proof -
  have "float_mul (int_truediv 1 2) 100 = 50" by code_simp
  then show ?thesis by (simp add: numeral_2_eq_2)
qed

lemma scenario_run:
  "compare_assets id fs_scenario [''root''] [''template'']
   = Inr \<lparr>total = 2, counts = (\<lambda>_. 0)(Identical := 1, Missing := 1), identical_ratio = 50,
          results = [\<lparr>status = Identical, path = ''a.txt''\<rparr>,
                     \<lparr>status = Missing, path = ''b.txt''\<rparr>]\<rparr>"
  unfolding compare_assets_def Let_def gather_scenario relative_scenario sum.case all_paths_scenario
  by (simp add: path_status_def hash_file_def fs_scenario_def str_rel_def sum_values_def half)

text \<open>
  Claim C5 as stated fails on the scenario of the specification: the line of the missing
  file is \<^verbatim>\<open>[MISSING  ] b.txt\<close>, with the spaces after the status, and not the
  left-padded \<^verbatim>\<open>[  MISSING] b.txt\<close>.
\<close>

theorem left_padding_counterexample:
  "text_lines (projr (compare_assets id fs_scenario [''root''] [''template''])) False
     = [''Compared 2 root files; 1 identical (50.00%).'',
        ''[IDENTICAL] a.txt'',
        ''[MISSING  ] b.txt'',
        [],
        ''Summary:'',
        ''Identical: 1 files (50.00%)'',
        ''Different: 0 files (0.00%)'',
        ''Missing  : 1 files (50.00%)'',
        ''Additional: 0 files (0.00%)''] \<and>
   left_padded_entry_line
       (results (projr (compare_assets id fs_scenario [''root''] [''template''])) ! 1)
     = ''[  MISSING] b.txt'' \<and>
   text_lines (projr (compare_assets id fs_scenario [''root''] [''template''])) False ! 2
     \<noteq> left_padded_entry_line
         (results (projr (compare_assets id fs_scenario [''root''] [''template''])) ! 1)"
proof -
  have lp: "left_pad 9 (upper ''missing'') = ''  MISSING''" by code_simp
  have "float_mul (int_truediv 1 2) 100 = 50" by code_simp
  then show ?thesis
    by (simp add: scenario_run text_lines_def header_line_def entry_line_def summary_line_def
        SUMMARY_ORDER_def Let_def labels titles str_nat_small format_2f_values
        left_padded_entry_line_def lp zero_ratio)
qed

section \<open>The entry point: directories\<close>

text \<open>
  Claim C3. When the command line is accepted and the resolved root directory or the
  resolved template directory does not exist, the run ends in \<^verbatim>\<open>SystemExit\<close> with a
  message that names the missing path (the root when both are missing), which is a
  non-zero exit status; it has no effect on standard output or on a file, and the result
  does not depend on the digest or on any file content, so no comparison took place.
\<close>

theorem main_missing_directory:
  assumes "parse_args (env_cwd env) cmd = Inr args"
    and "root_assets = resolve (env_cwd env) (path_or (input_path args) (root args))"
    and "template_assets = resolve (env_cwd env) (path_or (template_path args) (template args))"
    and "\<not> exists_path (env_fs env) root_assets \<or> \<not> exists_path (env_fs env) template_assets"
  shows "main sha dumps env cmd =
     Inl (SystemExit
       (if \<not> exists_path (env_fs env) root_assets
        then ''Root assets folder not found: '' @ str_abs root_assets
        else ''Template assets folder not found: '' @ str_abs template_assets))"
proof (cases "exists_path (env_fs env) root_assets")
  case True
  with assms(4) have "\<not> exists_path (env_fs env) template_assets" by simp
  with True show ?thesis
    unfolding main_def assms(1) sum.case Let_def assms(2) [symmetric] assms(3) [symmetric]
    by simp
next
  case False
  then show ?thesis
    unfolding main_def assms(1) sum.case Let_def assms(2) [symmetric] assms(3) [symmetric]
    by simp
qed

theorem main_missing_directory_witness:
  "parse_args [''home''] cmd_default =
     Inr \<lparr>root = Absolute [''home'', ''assets''],
          template = Relative [''.packs'', ''template-1.21.11'', ''assets''],
          format = TextFormat, input_path = None, template_path = None, report_file = None\<rparr> \<and>
   \<not> exists_path fs_scenario [''home'', ''assets''] \<and>
   main id dumps_example env_example cmd_default
     = Inl (SystemExit ''Root assets folder not found: /home/assets'') \<and>
   parse_args [''home''] (cmd_default\<lparr>positionals := [Absolute [''root'']]\<rparr>) =
     Inr \<lparr>root = Absolute [''root''],
          template = Relative [''.packs'', ''template-1.21.11'', ''assets''],
          format = TextFormat, input_path = None, template_path = None, report_file = None\<rparr> \<and>
   exists_path fs_scenario [''root''] \<and>
   \<not> exists_path fs_scenario [''home'', ''.packs'', ''template-1.21.11'', ''assets''] \<and>
   main id dumps_example env_example (cmd_default\<lparr>positionals := [Absolute [''root'']]\<rparr>)
     = Inl (SystemExit ''Template assets folder not found: /home/.packs/template-1.21.11/assets'')"
proof -
  let ?a1 = "\<lparr>root = Absolute [''home'', ''assets''],
          template = Relative [''.packs'', ''template-1.21.11'', ''assets''],
          format = TextFormat, input_path = None, template_path = None, report_file = None\<rparr>"
  let ?a2 = "\<lparr>root = Absolute [''root''],
          template = Relative [''.packs'', ''template-1.21.11'', ''assets''],
          format = TextFormat, input_path = None, template_path = None, report_file = None\<rparr>"
  let ?c2 = "cmd_default\<lparr>positionals := [Absolute [''root'']]\<rparr>"
  have p1: "parse_args (env_cwd env_example) cmd_default = Inr ?a1"
    by (simp add: parse_args_def cmd_default_def default_root_def default_template_def env_example_def)
  have p2: "parse_args (env_cwd env_example) ?c2 = Inr ?a2"
    by (simp add: parse_args_def cmd_default_def default_root_def default_template_def env_example_def)
  have r1: "[''home'', ''assets''] = resolve (env_cwd env_example) (path_or (input_path ?a1) (root ?a1))"
    by (simp add: path_or_def env_example_def)
  have t1: "[''home'', ''.packs'', ''template-1.21.11'', ''assets'']
        = resolve (env_cwd env_example) (path_or (template_path ?a1) (template ?a1))"
    by (simp add: path_or_def env_example_def)
  have r2: "[''root''] = resolve (env_cwd env_example) (path_or (input_path ?a2) (root ?a2))"
    by (simp add: path_or_def env_example_def)
  have t2: "[''home'', ''.packs'', ''template-1.21.11'', ''assets'']
        = resolve (env_cwd env_example) (path_or (template_path ?a2) (template ?a2))"
    by (simp add: path_or_def env_example_def)
  have n1: "\<not> exists_path fs_scenario [''home'', ''assets'']"
    by (simp add: exists_path_def entries_def fs_scenario_def)
  have n2: "\<not> exists_path fs_scenario [''home'', ''.packs'', ''template-1.21.11'', ''assets'']"
    by (simp add: exists_path_def entries_def fs_scenario_def)
  have y: "exists_path fs_scenario [''root'']"
    by (simp add: exists_path_def entries_def fs_scenario_def)
  have fs: "env_fs env_example = fs_scenario" by (simp add: env_example_def)
  have m1: "main id dumps_example env_example cmd_default
     = Inl (SystemExit ''Root assets folder not found: /home/assets'')"
    using main_missing_directory [OF p1 r1 t1, of id dumps_example] n1
    by (simp add: fs str_abs_def)
  have m2: "main id dumps_example env_example ?c2
     = Inl (SystemExit ''Template assets folder not found: /home/.packs/template-1.21.11/assets'')"
    using main_missing_directory [OF p2 r2 t2, of id dumps_example] n2 y
    by (simp add: fs str_abs_def)
  show ?thesis using p1 p2 n1 n2 y m1 m2 by (simp add: env_example_def)
qed

lemma main_cong:
  assumes "parse_args (env_cwd env) cmd = Inr args"
    and "parse_args (env_cwd env) cmd' = Inr args'"
    and "path_or (input_path args) (root args) = path_or (input_path args') (root args')"
    and "path_or (template_path args) (template args) = path_or (template_path args') (template args')"
    and "format args = format args'"
    and "report_file args = report_file args'"
  shows "main sha dumps env cmd = main sha dumps env cmd'"
  unfolding main_def assms(1) assms(2) sum.case assms(3) assms(4) assms(5) assms(6) by (rule refl)

text \<open>
  Claim C6. The directory that is resolved as the root is the argument of \<^verbatim>\<open>--input\<close>
  when that option is given, and otherwise the first positional argument or, without
  one, \<^verbatim>\<open>assets\<close> below the working directory; the template directory is the argument
  of \<^verbatim>\<open>--template\<close> when given, and otherwise the second positional argument or the
  fixed template-pack path. The run is the same as the run where both directories are
  passed by the options and no positional argument is given.
\<close>

theorem named_flags_take_precedence:
  assumes "parse_args (env_cwd env) cmd = Inr args"
  shows "path_or (input_path args) (root args) =
           (case opt_input cmd of
              Some p \<Rightarrow> p
            | None \<Rightarrow> (case positionals cmd of
                         [] \<Rightarrow> Absolute (env_cwd env @ [''assets''])
                       | a # _ \<Rightarrow> a)) \<and>
         path_or (template_path args) (template args) =
           (case opt_template cmd of
              Some p \<Rightarrow> p
            | None \<Rightarrow> (case positionals cmd of
                         _ # b # _ \<Rightarrow> b
                       | _ \<Rightarrow> Relative [''.packs'', ''template-1.21.11'', ''assets''])) \<and>
         main sha dumps env cmd =
           main sha dumps env
             (cmd\<lparr>positionals := [],
                  opt_input := Some (path_or (input_path args) (root args)),
                  opt_template := Some (path_or (template_path args) (template args))\<rparr>)"
proof -
  let ?cmd' = "cmd\<lparr>positionals := [],
                  opt_input := Some (path_or (input_path args) (root args)),
                  opt_template := Some (path_or (template_path args) (template args))\<rparr>"
  from assms have args: "args = \<lparr>root = (case positionals cmd of [] \<Rightarrow> default_root (env_cwd env) | a # _ \<Rightarrow> a),
                template = (case positionals cmd of _ # b # _ \<Rightarrow> b | _ \<Rightarrow> default_template),
                format = (case opt_format cmd of None \<Rightarrow> TextFormat | Some f \<Rightarrow> f),
                input_path = opt_input cmd,
                template_path = opt_template cmd,
                report_file = opt_report cmd\<rparr>"
    by (simp add: parse_args_def split: if_splits)
  have a: "path_or (input_path args) (root args) =
           (case opt_input cmd of
              Some p \<Rightarrow> p
            | None \<Rightarrow> (case positionals cmd of
                         [] \<Rightarrow> Absolute (env_cwd env @ [''assets''])
                       | a # _ \<Rightarrow> a))"
    by (simp add: args path_or_def default_root_def split: option.splits list.splits)
  have b: "path_or (template_path args) (template args) =
           (case opt_template cmd of
              Some p \<Rightarrow> p
            | None \<Rightarrow> (case positionals cmd of
                         _ # b # _ \<Rightarrow> b
                       | _ \<Rightarrow> Relative [''.packs'', ''template-1.21.11'', ''assets'']))"
    by (simp add: args path_or_def default_template_def split: option.splits list.splits)
  obtain args' where p': "parse_args (env_cwd env) ?cmd' = Inr args'"
    by (simp add: parse_args_def)
  then have args': "input_path args' = Some (path_or (input_path args) (root args))"
       "template_path args' = Some (path_or (template_path args) (template args))"
       "format args' = format args" "report_file args' = report_file args"
    by (auto simp: parse_args_def args)
  have "main sha dumps env cmd = main sha dumps env ?cmd'"
    by (rule main_cong [OF assms p']) (simp_all add: args' path_or_def)
  with a b show ?thesis by simp
qed

theorem named_flags_take_precedence_witness:
  "parse_args [''home''] cmd_flags =
     Inr \<lparr>root = Absolute [''root''], template = Absolute [''template''], format = TextFormat,
          input_path = Some (Absolute [''elsewhere'']), template_path = None,
          report_file = None\<rparr> \<and>
   path_or (Some (Absolute [''elsewhere''])) (Absolute [''root'']) = Absolute [''elsewhere''] \<and>
   path_or None (Absolute [''template'']) = Absolute [''template''] \<and>
   main id dumps_example env_example cmd_flags =
     main id dumps_example env_example
       (cmd_flags\<lparr>positionals := [], opt_input := Some (Absolute [''elsewhere'']),
                  opt_template := Some (Absolute [''template''])\<rparr>) \<and>
   main id dumps_example env_example cmd_flags
     = Inl (SystemExit ''Root assets folder not found: /elsewhere'')"
proof -
  let ?a = "\<lparr>root = Absolute [''root''], template = Absolute [''template''], format = TextFormat,
          input_path = Some (Absolute [''elsewhere'']), template_path = None,
          report_file = None\<rparr>"
  have p: "parse_args (env_cwd env_example) cmd_flags = Inr ?a"
    by (simp add: parse_args_def cmd_flags_def env_example_def)
  have n: "\<not> exists_path fs_scenario [''elsewhere'']"
    by (simp add: exists_path_def entries_def fs_scenario_def)
  have m: "main id dumps_example env_example cmd_flags
     = Inl (SystemExit ''Root assets folder not found: /elsewhere'')"
    unfolding main_def p sum.case Let_def
    by (simp add: path_or_def env_example_def n str_abs_def)
  from named_flags_take_precedence [OF p, of id dumps_example]
  have "main id dumps_example env_example cmd_flags =
     main id dumps_example env_example
       (cmd_flags\<lparr>positionals := [], opt_input := Some (Absolute [''elsewhere'']),
                  opt_template := Some (Absolute [''template''])\<rparr>)"
    by (simp add: path_or_def)
  with p m show ?thesis by (simp add: path_or_def env_example_def)
qed

section \<open>The two formats agree\<close>























section \<open>Colour\<close>


lemma has_color_append [simp]: "has_color (a @ b) \<longleftrightarrow> has_color a \<or> has_color b"
  by (auto simp: has_color_def)

lemma has_color_Cons [simp]: "has_color (c # s) \<longleftrightarrow> c = CHR 0x1B \<or> has_color s"
  by (auto simp: has_color_def)

lemma has_color_Nil [simp]: "\<not> has_color []"
  by (simp add: has_color_def)
















end
